theory Spec2Isabelle
  imports Complex_Main "HOL-Library.AList"
begin

section \<open>Values, errors and the outside world\<close>

text \<open>
  The entry points of \<^verbatim>\<open>_api.py\<close> check the dynamic type of their first argument
  (\<^verbatim>\<open>isinstance(video_id, str)\<close>, \<^verbatim>\<open>isinstance(video_ids, list)\<close>), so that
  argument is a Python value whose type is only known at run time.
\<close>

datatype pyval =
    PStr string
  | PInt int
  | PNone
  | PList "pyval list"
  | PTuple "pyval list"

fun isinstance_str :: "pyval \<Rightarrow> bool" where
  "isinstance_str (PStr s) = True"
| "isinstance_str v = False"

fun isinstance_list :: "pyval \<Rightarrow> bool" where
  "isinstance_list (PList xs) = True"
| "isinstance_list v = False"

text \<open>
  What \<^verbatim>\<open>cookie_jar.load(path)\<close> of the standard library can raise: the two kinds
  the module collects in \<^verbatim>\<open>CookieLoadError = (FileNotFoundError, cookiejar.LoadError)\<close>,
  and the other failures of opening and decoding a file, which that tuple does not name.
  This is the branch of the import that Python 3 takes (\<^verbatim>\<open>http.cookiejar\<close>).
\<close>

datatype load_exception =
    FileNotFoundError
  | LoadError
  | PermissionError
  | IsADirectoryError
  | UnicodeDecodeError

text \<open>
  Every exception of the program is a value. All of them are instances of Python's
  \<^verbatim>\<open>Exception\<close>, which is what \<^verbatim>\<open>except Exception\<close> in \<^verbatim>\<open>get_transcripts\<close>
  catches. \<open>CouldNotRetrieveTranscript\<close> stands for the failures the transcript
  fetcher and the payload fetch raise (video id and kind).
\<close>

datatype error =
    AssertionError string
  | CookieFileError load_exception
  | CookiePathInvalid string
  | CookiesInvalid string
  | NoTranscriptFound string "string list" "string list"
  | NotTranslatable string
  | TranslationLanguageNotAvailable string
  | CouldNotRetrieveTranscript string string

type_synonym cookie_jar = "(string \<times> string) list"

datatype verify_setting = VerifyBool bool | VerifyPath string

text \<open>The fields of \<^verbatim>\<open>requests.Session\<close> that \<^verbatim>\<open>list_transcripts\<close> assigns.\<close>

record session =
  session_cookies :: cookie_jar
  session_proxies :: "(string \<times> string) list"
  session_verify :: verify_setting

text \<open>\<^verbatim>\<open>requests.Session()\<close>: no cookies, no proxies, certificates verified.\<close>

definition Session :: session where
  "Session = \<lparr>session_cookies = [], session_proxies = [], session_verify = VerifyBool True\<rparr>"

text \<open>A timed text unit of a fetched transcript.\<close>

record cue =
  cue_text :: string
  cue_start :: real
  cue_duration :: real

text \<open>
  The Transcript Descriptor of the specification (section 3). The fetch URL is the
  opaque template together with the translation target, when there is one.
\<close>

record transcript =
  transcript_video_id :: string
  fetch_url :: string
  translation_target :: "string option"
  language :: string
  language_code :: string
  is_generated :: bool
  is_translatable :: bool
  translation_languages :: "(string \<times> string) list"

text \<open>The Transcript Catalog of the specification (section 3).\<close>

record transcript_list =
  catalog_video_id :: string
  descriptors :: "transcript list"

text \<open>
  The operations on the outside world, in the order they were performed. Each one is
  appended to the trace when it happens.
\<close>

datatype event =
    LoadCookieFile string
  | FetchTranscriptList session string
  | FetchPayload transcript bool

type_synonym trace = "event list"

text \<open>
  The outside world: what loading a cookie file, fetching the transcript list of a
  video through a session, and fetching the payload of a transcript answer. The answer
  may depend on everything that happened before (the trace), so that the same request
  can succeed once and fail later.
\<close>

record env =
  cookie_file :: "trace \<Rightarrow> string \<Rightarrow> load_exception + cookie_jar"
  transcript_list_fetcher :: "trace \<Rightarrow> session \<Rightarrow> string \<Rightarrow> error + transcript_list"
  transcript_fetch :: "trace \<Rightarrow> transcript \<Rightarrow> bool \<Rightarrow> error + cue list"

type_synonym 'a io = "trace \<Rightarrow> (error + 'a) \<times> trace"

section \<open>Loading cookies\<close>

text \<open>\<^verbatim>\<open>CookieLoadError = (FileNotFoundError, cookiejar.LoadError)\<close>\<close>

fun CookieLoadError :: "error \<Rightarrow> bool" where
  "CookieLoadError (CookieFileError FileNotFoundError) = True"
| "CookieLoadError (CookieFileError LoadError) = True"
| "CookieLoadError e = False"

text \<open>
  \<^verbatim>\<open>_load_cookies\<close>: the body of the \<^verbatim>\<open>try\<close> loads the file and raises
  \<^verbatim>\<open>CookiesInvalid\<close> on an empty jar; the handler turns an exception of the kinds in
  \<^verbatim>\<open>CookieLoadError\<close> into \<^verbatim>\<open>CookiePathInvalid\<close> and lets every other one pass.
\<close>

definition load_cookies :: "env \<Rightarrow> string \<Rightarrow> string \<Rightarrow> cookie_jar io" where
  "load_cookies e cookies video_id tr =
     (let body =
            (case cookie_file e tr cookies of
               Inl x \<Rightarrow> Inl (CookieFileError x)
             | Inr cookie_jar \<Rightarrow>
                 if cookie_jar = [] then Inl (CookiesInvalid video_id) else Inr cookie_jar)
      in (case body of
            Inl x \<Rightarrow> if CookieLoadError x then Inl (CookiePathInvalid video_id) else Inl x
          | Inr cookie_jar \<Rightarrow> Inr cookie_jar,
          tr @ [LoadCookieFile cookies]))"

section \<open>Listing the transcripts of a video\<close>

text \<open>
  \<^verbatim>\<open>list_transcripts\<close>: \<^verbatim>\<open>cookies\<close> is \<open>None\<close> or a path, \<^verbatim>\<open>proxies\<close> is \<open>None\<close>
  or a dictionary, \<^verbatim>\<open>verify\<close> is \<open>None\<close>, a boolean or a path. \<^verbatim>\<open>if cookies:\<close> and
  \<^verbatim>\<open>proxies if proxies else {}\<close> test truthiness: \<open>None\<close>, the empty string and the
  empty dictionary are false.
\<close>

definition list_transcripts ::
  "env \<Rightarrow> string \<Rightarrow> (string \<times> string) list option \<Rightarrow> string option \<Rightarrow>
   verify_setting option \<Rightarrow> transcript_list io" where
  "list_transcripts e video_id proxies cookies verify tr =
     (let http_client = Session;
          loaded =
            (case cookies of
               None \<Rightarrow> (Inr http_client, tr)
             | Some path \<Rightarrow>
                 if path = [] then (Inr http_client, tr)
                 else (case load_cookies e path video_id tr of
                         (Inl x, tr1) \<Rightarrow> (Inl x, tr1)
                       | (Inr jar, tr1) \<Rightarrow> (Inr (http_client\<lparr>session_cookies := jar\<rparr>), tr1)))
      in case loaded of
           (Inl x, tr1) \<Rightarrow> (Inl x, tr1)
         | (Inr c1, tr1) \<Rightarrow>
             (let c2 = c1\<lparr>session_proxies :=
                          (case proxies of
                             None \<Rightarrow> []
                           | Some p \<Rightarrow> if p \<noteq> [] then p else [])\<rparr>;
                  c3 = (case verify of None \<Rightarrow> c2 | Some v \<Rightarrow> c2\<lparr>session_verify := v\<rparr>)
              in (transcript_list_fetcher e tr1 c3 video_id,
                  tr1 @ [FetchTranscriptList c3 video_id])))"

section \<open>Selecting a transcript\<close>

text \<open>
  Modelled from the spec: \<^verbatim>\<open>TranscriptList.find_transcript\<close> and its variants live in
  \<^verbatim>\<open>_transcripts.py\<close>, which is not among the sources. Section 4.2 of the
  specification gives the algorithm: a first pass over the requested codes, in the
  caller's order, looks for a Descriptor of an allowed origin with exactly that
  language code; only when the whole first pass finds nothing, a second pass over the
  requested codes looks for a Descriptor with the same primary subtag (the code up to
  its first hyphen). Within one requested code the allowed origins are tried in their
  order of preference, and within one origin the platform's order decides. When both
  passes find nothing the failure lists the language codes of the whole Catalog.
\<close>

datatype origin = Manual | Generated

definition origin_of :: "transcript \<Rightarrow> origin" where
  "origin_of t = (if is_generated t then Generated else Manual)"

definition primary_subtag :: "string \<Rightarrow> string" where
  "primary_subtag code = takeWhile (\<lambda>c. c \<noteq> CHR ''-'') code"

definition exact_match :: "string \<Rightarrow> transcript \<Rightarrow> bool" where
  "exact_match code t = (language_code t = code)"

definition subtag_match :: "string \<Rightarrow> transcript \<Rightarrow> bool" where
  "subtag_match code t = (primary_subtag (language_code t) = primary_subtag code)"

fun search_origins ::
  "(transcript \<Rightarrow> bool) \<Rightarrow> origin list \<Rightarrow> transcript list \<Rightarrow> transcript option" where
  "search_origins P [] ts = None"
| "search_origins P (orig # origs) ts =
     (case List.find (\<lambda>t. origin_of t = orig \<and> P t) ts of
        Some t \<Rightarrow> Some t
      | None \<Rightarrow> search_origins P origs ts)"

fun scan_languages ::
  "(string \<Rightarrow> transcript \<Rightarrow> bool) \<Rightarrow> origin list \<Rightarrow> transcript list \<Rightarrow> string list \<Rightarrow>
   transcript option" where
  "scan_languages m origs ts [] = None"
| "scan_languages m origs ts (code # codes) =
     (case search_origins (m code) origs ts of
        Some t \<Rightarrow> Some t
      | None \<Rightarrow> scan_languages m origs ts codes)"

definition find_transcript_among ::
  "transcript_list \<Rightarrow> string list \<Rightarrow> origin list \<Rightarrow> error + transcript" where
  "find_transcript_among catalog requested_languages allowed_origins =
     (case scan_languages exact_match allowed_origins (descriptors catalog) requested_languages of
        Some t \<Rightarrow> Inr t
      | None \<Rightarrow>
          (case scan_languages subtag_match allowed_origins (descriptors catalog)
                  requested_languages of
             Some t \<Rightarrow> Inr t
           | None \<Rightarrow>
               Inl (NoTranscriptFound (catalog_video_id catalog) requested_languages
                      (map language_code (descriptors catalog)))))"

text \<open>
  Modelled from the spec: the three entry points of section 4.2. \<open>find_transcript\<close>
  allows either origin and prefers a manually created transcript.
\<close>

definition find_transcript :: "transcript_list \<Rightarrow> string list \<Rightarrow> error + transcript" where
  "find_transcript catalog requested_languages =
     find_transcript_among catalog requested_languages [Manual, Generated]"

definition find_manually_created_transcript ::
  "transcript_list \<Rightarrow> string list \<Rightarrow> error + transcript" where
  "find_manually_created_transcript catalog requested_languages =
     find_transcript_among catalog requested_languages [Manual]"

definition find_generated_transcript ::
  "transcript_list \<Rightarrow> string list \<Rightarrow> error + transcript" where
  "find_generated_transcript catalog requested_languages =
     find_transcript_among catalog requested_languages [Generated]"

section \<open>Translating a transcript\<close>

text \<open>
  Modelled from the spec: \<^verbatim>\<open>Transcript.translate\<close> lives in \<^verbatim>\<open>_transcripts.py\<close>, which
  is not among the sources. Section 4.3: a Descriptor that is not translatable fails
  with "not translatable"; a target code that is not offered fails with "translation
  language unavailable"; otherwise the result is a new Descriptor whose fetch URL
  carries the translation target, with \<open>is_generated\<close> unchanged, \<open>is_translatable\<close>
  false and no translation languages.
\<close>

definition translate :: "transcript \<Rightarrow> string \<Rightarrow> error + transcript" where
  "translate d target_language_code =
     (if \<not> is_translatable d then Inl (NotTranslatable (transcript_video_id d))
      else if target_language_code \<notin> set (map fst (translation_languages d))
      then Inl (TranslationLanguageNotAvailable (transcript_video_id d))
      else Inr (d\<lparr>translation_target := Some target_language_code,
                  is_translatable := False,
                  translation_languages := []\<rparr>))"

section \<open>Fetching one transcript\<close>

text \<open>
  \<^verbatim>\<open>Transcript.fetch(preserve_formatting)\<close> is a request to the outside world: the
  answer is the environment's, and the request is recorded.
\<close>

definition fetch :: "env \<Rightarrow> transcript \<Rightarrow> bool \<Rightarrow> cue list io" where
  "fetch e t preserve_formatting tr =
     (transcript_fetch e tr t preserve_formatting, tr @ [FetchPayload t preserve_formatting])"

text \<open>
  \<^verbatim>\<open>get_transcript\<close>: the assertion on the type of \<^verbatim>\<open>video_id\<close> comes first
  (assertions are enabled, as they are unless the interpreter is asked to drop them);
  then the transcript list is fetched, a transcript is selected and its payload
  fetched. An exception of any step ends the call.
\<close>

definition get_transcript ::
  "env \<Rightarrow> pyval \<Rightarrow> string list \<Rightarrow> (string \<times> string) list option \<Rightarrow> string option \<Rightarrow>
   bool \<Rightarrow> verify_setting option \<Rightarrow> cue list io" where
  "get_transcript e video_id languages proxies cookies preserve_formatting verify tr =
     (case video_id of
        PStr v \<Rightarrow>
          (case list_transcripts e v proxies cookies verify tr of
             (Inl x, tr1) \<Rightarrow> (Inl x, tr1)
           | (Inr catalog, tr1) \<Rightarrow>
               (case find_transcript catalog languages of
                  Inl x \<Rightarrow> (Inl x, tr1)
                | Inr t \<Rightarrow> fetch e t preserve_formatting tr1))
      | _ \<Rightarrow> (Inl (AssertionError ''`video_id` must be a string''), tr))"

section \<open>Fetching the transcripts of many videos\<close>

type_synonym transcripts = "(pyval \<times> cue list) list"

text \<open>
  The loop of \<^verbatim>\<open>get_transcripts\<close> over the remaining ids, with the dictionary
  \<^verbatim>\<open>data\<close> and the list \<^verbatim>\<open>unretrievable_videos\<close> built so far. The dictionary is an
  association list in insertion order; \<^verbatim>\<open>data[video_id] = ...\<close> replaces the value of
  a key that is there and appends a new key otherwise.
\<close>

fun get_transcripts_loop ::
  "env \<Rightarrow> string list \<Rightarrow> bool \<Rightarrow> (string \<times> string) list option \<Rightarrow> string option \<Rightarrow>
   bool \<Rightarrow> verify_setting option \<Rightarrow> pyval list \<Rightarrow> transcripts \<Rightarrow> pyval list \<Rightarrow>
   (transcripts \<times> pyval list) io" where
  "get_transcripts_loop e languages continue_after_error proxies cookies preserve_formatting
     verify [] data unretrievable_videos tr = (Inr (data, unretrievable_videos), tr)"
| "get_transcripts_loop e languages continue_after_error proxies cookies preserve_formatting
     verify (video_id # video_ids) data unretrievable_videos tr =
     (case get_transcript e video_id languages proxies cookies preserve_formatting verify tr of
        (Inr cues, tr1) \<Rightarrow>
          get_transcripts_loop e languages continue_after_error proxies cookies
            preserve_formatting verify video_ids (AList.update video_id cues data)
            unretrievable_videos tr1
      | (Inl exception, tr1) \<Rightarrow>
          if \<not> continue_after_error then (Inl exception, tr1)
          else get_transcripts_loop e languages continue_after_error proxies cookies
                 preserve_formatting verify video_ids data
                 (unretrievable_videos @ [video_id]) tr1)"

text \<open>\<^verbatim>\<open>get_transcripts\<close>: the assertion, then the loop from the empty accumulators.\<close>

definition get_transcripts ::
  "env \<Rightarrow> pyval \<Rightarrow> string list \<Rightarrow> bool \<Rightarrow> (string \<times> string) list option \<Rightarrow>
   string option \<Rightarrow> bool \<Rightarrow> verify_setting option \<Rightarrow> (transcripts \<times> pyval list) io" where
  "get_transcripts e video_ids languages continue_after_error proxies cookies
     preserve_formatting verify tr =
     (case video_ids of
        PList ids \<Rightarrow>
          get_transcripts_loop e languages continue_after_error proxies cookies
            preserve_formatting verify ids [] [] tr
      | _ \<Rightarrow> (Inl (AssertionError ''`video_ids` must be a list of strings''), tr))"

section \<open>Default arguments\<close>

text \<open>
  A call that may omit keyword arguments: \<open>None\<close> is an omitted argument, and the
  default of the signature takes its place (\<^verbatim>\<open>languages=("en",)\<close>,
  \<^verbatim>\<open>continue_after_error=False\<close>, \<^verbatim>\<open>preserve_formatting=False\<close>). The defaults of
  \<^verbatim>\<open>proxies\<close>, \<^verbatim>\<open>cookies\<close> and \<^verbatim>\<open>verify\<close> are \<open>None\<close> itself.
\<close>

definition get_transcript_call ::
  "env \<Rightarrow> pyval \<Rightarrow> string list option \<Rightarrow> (string \<times> string) list option \<Rightarrow>
   string option \<Rightarrow> bool option \<Rightarrow> verify_setting option \<Rightarrow> cue list io" where
  "get_transcript_call e video_id languages proxies cookies preserve_formatting verify =
     get_transcript e video_id
       (case languages of None \<Rightarrow> [''en''] | Some l \<Rightarrow> l)
       proxies cookies
       (case preserve_formatting of None \<Rightarrow> False | Some b \<Rightarrow> b)
       verify"

definition get_transcripts_call ::
  "env \<Rightarrow> pyval \<Rightarrow> string list option \<Rightarrow> bool option \<Rightarrow> (string \<times> string) list option \<Rightarrow>
   string option \<Rightarrow> bool option \<Rightarrow> verify_setting option \<Rightarrow>
   (transcripts \<times> pyval list) io" where
  "get_transcripts_call e video_ids languages continue_after_error proxies cookies
     preserve_formatting verify =
     get_transcripts e video_ids
       (case languages of None \<Rightarrow> [''en''] | Some l \<Rightarrow> l)
       (case continue_after_error of None \<Rightarrow> False | Some b \<Rightarrow> b)
       proxies cookies
       (case preserve_formatting of None \<Rightarrow> False | Some b \<Rightarrow> b)
       verify"

section \<open>The shortcut that \<open>get_transcript\<close> documents\<close>

text \<open>
  The docstring of \<^verbatim>\<open>get_transcript\<close> calls it a shortcut for
  \<^verbatim>\<open>list_transcripts(video_id, proxies).find_transcript(languages).fetch()\<close>. This is
  that chain of three calls, written with the sequencing of calls that may raise: the
  first exception ends the chain, and the trace is handed from one call to the next.
\<close>

definition and_then :: "'a io \<Rightarrow> ('a \<Rightarrow> 'b io) \<Rightarrow> 'b io" where
  "and_then m f tr = (case m tr of (Inl x, tr1) \<Rightarrow> (Inl x, tr1) | (Inr a, tr1) \<Rightarrow> f a tr1)"

definition pure_call :: "error + 'a \<Rightarrow> 'a io" where
  "pure_call r tr = (r, tr)"

definition shortcut_chain ::
  "env \<Rightarrow> string \<Rightarrow> string list \<Rightarrow> (string \<times> string) list option \<Rightarrow> string option \<Rightarrow>
   bool \<Rightarrow> verify_setting option \<Rightarrow> cue list io" where
  "shortcut_chain e video_id languages proxies cookies preserve_formatting verify =
     and_then (list_transcripts e video_id proxies cookies verify)
       (\<lambda>catalog. and_then (pure_call (find_transcript catalog languages))
          (\<lambda>t. fetch e t preserve_formatting))"

section \<open>Reading a trace\<close>

text \<open>The sessions that were handed to the transcript fetcher, in order.\<close>

fun sessions_of :: "trace \<Rightarrow> session list" where
  "sessions_of [] = []"
| "sessions_of (FetchTranscriptList s v # es) = s # sessions_of es"
| "sessions_of (LoadCookieFile p # es) = sessions_of es"
| "sessions_of (FetchPayload t b # es) = sessions_of es"

text \<open>
  The session with a given cookie jar and the caller's proxies and verify setting, the
  other fields as \<^verbatim>\<open>requests.Session()\<close> sets them.
\<close>

definition configured ::
  "cookie_jar \<Rightarrow> (string \<times> string) list option \<Rightarrow> verify_setting option \<Rightarrow> session" where
  "configured jar proxies verify =
     \<lparr>session_cookies = jar,
      session_proxies = (case proxies of None \<Rightarrow> [] | Some p \<Rightarrow> p),
      session_verify = (case verify of None \<Rightarrow> VerifyBool True | Some v \<Rightarrow> v)\<rparr>"

text \<open>The video ids whose transcript list was requested, in order.\<close>

fun fetched_ids :: "trace \<Rightarrow> pyval list" where
  "fetched_ids [] = []"
| "fetched_ids (FetchTranscriptList s v # es) = PStr v # fetched_ids es"
| "fetched_ids (LoadCookieFile p # es) = fetched_ids es"
| "fetched_ids (FetchPayload t b # es) = fetched_ids es"

section \<open>Reading a run of the loop\<close>

text \<open>
  The outcome of \<open>get_transcript\<close> for each id of a list in turn, each call starting
  from the trace that the call before it left: the id with what the call returned or
  raised.
\<close>

fun attempts ::
  "env \<Rightarrow> string list \<Rightarrow> (string \<times> string) list option \<Rightarrow> string option \<Rightarrow> bool \<Rightarrow>
   verify_setting option \<Rightarrow> pyval list \<Rightarrow> trace \<Rightarrow> (pyval \<times> (error + cue list)) list" where
  "attempts e languages proxies cookies preserve_formatting verify [] tr = []"
| "attempts e languages proxies cookies preserve_formatting verify (video_id # video_ids) tr =
     (case get_transcript e video_id languages proxies cookies preserve_formatting verify tr of
        (r, tr1) \<Rightarrow>
          (video_id, r) # attempts e languages proxies cookies preserve_formatting verify
                            video_ids tr1)"

text \<open>The ids whose call raised, and the ids whose call returned with what it returned.\<close>

fun failed_ids :: "(pyval \<times> (error + cue list)) list \<Rightarrow> pyval list" where
  "failed_ids [] = []"
| "failed_ids ((i, Inl x) # rs) = i # failed_ids rs"
| "failed_ids ((i, Inr cues) # rs) = failed_ids rs"

fun retrieved :: "(pyval \<times> (error + cue list)) list \<Rightarrow> (pyval \<times> cue list) list" where
  "retrieved [] = []"
| "retrieved ((i, Inl x) # rs) = retrieved rs"
| "retrieved ((i, Inr cues) # rs) = (i, cues) # retrieved rs"

section \<open>Example data\<close>

text \<open>
  A small world used to run the definitions on concrete inputs: one video with three
  transcripts, a cookie file that loads, one that loads without cookies, a directory
  and a missing file.
\<close>

definition en_manual :: transcript where
  "en_manual =
     \<lparr>transcript_video_id = ''vid1'', fetch_url = ''timedtext?v=vid1&lang=en'',
      translation_target = None, language = ''English'', language_code = ''en'',
      is_generated = False, is_translatable = True,
      translation_languages = [(''de'', ''German'')]\<rparr>"

definition en_generated :: transcript where
  "en_generated =
     \<lparr>transcript_video_id = ''vid1'', fetch_url = ''timedtext?v=vid1&lang=en&kind=asr'',
      translation_target = None, language = ''English (auto-generated)'',
      language_code = ''en'', is_generated = True, is_translatable = False,
      translation_languages = []\<rparr>"

definition fr_CA_manual :: transcript where
  "fr_CA_manual =
     \<lparr>transcript_video_id = ''vid1'', fetch_url = ''timedtext?v=vid1&lang=fr-CA'',
      translation_target = None, language = ''French (Canada)'', language_code = ''fr-CA'',
      is_generated = False, is_translatable = True,
      translation_languages = [(''en'', ''English'')]\<rparr>"

definition example_catalog :: transcript_list where
  "example_catalog =
     \<lparr>catalog_video_id = ''vid1'', descriptors = [en_generated, fr_CA_manual, en_manual]\<rparr>"

definition example_cues :: "cue list" where
  "example_cues = [\<lparr>cue_text = ''hello'', cue_start = 0, cue_duration = 2\<rparr>]"

definition trace_vid1 :: trace where
  "trace_vid1 = [FetchTranscriptList Session ''vid1'', FetchPayload en_manual False]"

definition trace_gone :: trace where
  "trace_gone = trace_vid1 @ [FetchTranscriptList Session ''gone'']"

definition proxied_session :: session where
  "proxied_session =
     \<lparr>session_cookies = [(''SID'', ''abc'')],
      session_proxies = [(''https'', ''http://proxy:8080'')],
      session_verify = VerifyPath ''ca.pem''\<rparr>"

definition example_env :: env where
  "example_env =
     \<lparr>cookie_file =
        (\<lambda>tr path.
           if path = ''cookies.txt'' then Inr [(''SID'', ''abc'')]
           else if path = ''empty.txt'' then Inr []
           else if path = ''/etc'' then Inl IsADirectoryError
           else Inl FileNotFoundError),
      transcript_list_fetcher =
        (\<lambda>tr s v.
           if v = ''vid1'' then Inr example_catalog
           else Inl (CouldNotRetrieveTranscript v ''VideoUnavailable'')),
      transcript_fetch = (\<lambda>tr t preserve_formatting. Inr example_cues)\<rparr>"

text \<open>
  A second world, whose transcript fetcher answers only the session with the proxy, the
  loaded cookies and the certificate file.
\<close>

definition proxy_only_env :: env where
  "proxy_only_env =
     \<lparr>cookie_file = (\<lambda>tr path. Inr [(''SID'', ''abc'')]),
      transcript_list_fetcher =
        (\<lambda>tr s v.
           if s = proxied_session then Inr example_catalog
           else Inl (CouldNotRetrieveTranscript v ''RequestBlocked'')),
      transcript_fetch = (\<lambda>tr t preserve_formatting. Inr example_cues)\<rparr>"

section \<open>Loading cookies: what the handler catches\<close>

text \<open>
  What \<open>load_cookies\<close> does with each answer of the file: \<open>CookiePathInvalid\<close> exactly
  when loading raises \<open>FileNotFoundError\<close> or \<open>LoadError\<close>, \<open>CookiesInvalid\<close> exactly
  when the file loads and the jar is empty, the jar exactly when the file loads and
  the jar is not empty, and the exception of loading itself for every other kind.
\<close>

lemma load_cookies_outcomes:
  "((\<exists>w. fst (load_cookies e cookies video_id tr) = Inl (CookiePathInvalid w)) =
      (cookie_file e tr cookies = Inl FileNotFoundError \<or> cookie_file e tr cookies = Inl LoadError))
   \<and> ((\<exists>w. fst (load_cookies e cookies video_id tr) = Inl (CookiesInvalid w)) =
      (cookie_file e tr cookies = Inr []))
   \<and> ((fst (load_cookies e cookies video_id tr) = Inr jar) =
      (cookie_file e tr cookies = Inr jar \<and> jar \<noteq> []))
   \<and> ((fst (load_cookies e cookies video_id tr) = Inl (CookieFileError x)) =
      (cookie_file e tr cookies = Inl x \<and> x \<noteq> FileNotFoundError \<and> x \<noteq> LoadError))
   \<and> ((fst (load_cookies e cookies video_id tr) = Inl (CookiePathInvalid video_id)) =
      (\<exists>w. fst (load_cookies e cookies video_id tr) = Inl (CookiePathInvalid w)))
   \<and> ((fst (load_cookies e cookies video_id tr) = Inl (CookiesInvalid video_id)) =
      (\<exists>w. fst (load_cookies e cookies video_id tr) = Inl (CookiesInvalid w)))"
  by (cases "cookie_file e tr cookies"; cases x;
      auto simp: load_cookies_def Let_def elim: CookieLoadError.elims)

lemma load_cookies_examples:
  "cookie_file example_env [] ''missing.txt'' = Inl FileNotFoundError
   \<and> fst (load_cookies example_env ''missing.txt'' ''vid1'' []) = Inl (CookiePathInvalid ''vid1'')
   \<and> cookie_file example_env [] ''empty.txt'' = Inr []
   \<and> fst (load_cookies example_env ''empty.txt'' ''vid1'' []) = Inl (CookiesInvalid ''vid1'')
   \<and> fst (load_cookies example_env ''cookies.txt'' ''vid1'' []) = Inr [(''SID'', ''abc'')]"
  by (simp add: example_env_def load_cookies_def)

text \<open>
  C3. The claim says that \<open>load_cookies\<close> raises \<open>CookiePathInvalid\<close> exactly when
  loading the cookie file fails, and returns the jar when neither failure kind applies.
  The code does not do so where the cookie path names a directory (or a file that may
  not be read): loading fails with \<open>IsADirectoryError\<close>, the handler names only
  \<open>FileNotFoundError\<close> and \<open>LoadError\<close>, and the caller sees \<open>IsADirectoryError\<close>,
  neither \<open>CookiePathInvalid\<close> nor a jar. The fallback of the same module,
  \<^verbatim>\<open>CookieLoadError = IOError\<close>, covers every failure of opening the file.
\<close>

theorem load_cookies_directory_escapes:
  "cookie_file example_env [] ''/etc'' = Inl IsADirectoryError
   \<and> fst (load_cookies example_env ''/etc'' ''vid1'' []) = Inl (CookieFileError IsADirectoryError)
   \<and> fst (load_cookies example_env ''/etc'' ''vid1'' []) \<noteq> Inl (CookiePathInvalid ''vid1'')
   \<and> fst (load_cookies example_env ''/etc'' ''vid1'' []) \<noteq> Inl (CookiesInvalid ''vid1'')"
  by (simp add: example_env_def load_cookies_def)

section \<open>Translation\<close>

text \<open>
  C6. For every Descriptor \<open>d\<close> and target code: when \<open>d\<close> is not translatable,
  \<open>translate\<close> fails with "not translatable"; when it is translatable and the code is
  not among its translation languages, \<open>translate\<close> fails with "translation language
  unavailable"; otherwise it returns a Descriptor that is not translatable, has no
  translation languages and has the \<open>is_generated\<close> of \<open>d\<close>. The result is a new
  value: \<open>d\<close> is an argument and stays what it was.
\<close>

theorem translate_outcomes:
  "(\<not> is_translatable d \<longrightarrow>
      translate d code = Inl (NotTranslatable (transcript_video_id d)))
   \<and> (is_translatable d \<and> code \<notin> fst ` set (translation_languages d) \<longrightarrow>
      translate d code = Inl (TranslationLanguageNotAvailable (transcript_video_id d)))
   \<and> (is_translatable d \<and> code \<in> fst ` set (translation_languages d) \<longrightarrow>
      (\<exists>d'. translate d code = Inr d' \<and> \<not> is_translatable d' \<and> translation_languages d' = []
         \<and> is_generated d' = is_generated d \<and> translation_target d' = Some code
         \<and> fetch_url d' = fetch_url d \<and> language_code d' = language_code d
         \<and> transcript_video_id d' = transcript_video_id d))"
  by (simp add: translate_def)

theorem translate_outcomes_witness:
  "\<not> is_translatable en_generated
   \<and> translate en_generated ''de'' = Inl (NotTranslatable ''vid1'')
   \<and> is_translatable en_manual \<and> ''fr'' \<notin> fst ` set (translation_languages en_manual)
   \<and> translate en_manual ''fr'' = Inl (TranslationLanguageNotAvailable ''vid1'')
   \<and> ''de'' \<in> fst ` set (translation_languages en_manual)
   \<and> (\<exists>d'. translate en_manual ''de'' = Inr d' \<and> \<not> is_translatable d'
         \<and> translation_languages d' = [] \<and> is_generated d' = is_generated en_manual
         \<and> translation_target d' = Some ''de'')"
  using translate_outcomes [of en_generated "''de''"] translate_outcomes [of en_manual "''fr''"]
    translate_outcomes [of en_manual "''de''"]
  by (simp add: en_generated_def en_manual_def translate_def)

section \<open>Default arguments\<close>

text \<open>
  C7. A call of \<open>get_transcript\<close> or \<open>get_transcripts\<close> that omits \<open>languages\<close> and
  \<open>preserve_formatting\<close> is the call with the one-entry sequence \<open>["en"]\<close> and with
  \<open>preserve_formatting\<close> false.
\<close>

theorem defaults_when_omitted:
  "get_transcript_call e video_id None proxies cookies None verify tr =
     get_transcript e video_id [''en''] proxies cookies False verify tr
   \<and> get_transcripts_call e video_ids None continue_after_error proxies cookies None verify tr =
     get_transcripts_call e video_ids (Some [''en'']) continue_after_error proxies cookies
       (Some False) verify tr
   \<and> get_transcripts_call e video_ids None None proxies cookies None verify tr =
     get_transcripts e video_ids [''en''] False proxies cookies False verify tr"
  by (simp add: get_transcript_call_def get_transcripts_call_def)

section \<open>Selecting a transcript: search lemmas\<close>

lemma find_Some_member: "List.find Q ts = Some x \<Longrightarrow> x \<in> set ts \<and> Q x"
  by (induction ts) (auto split: if_splits)

lemma find_None_all: "(List.find Q ts = None) = (\<forall>x\<in>set ts. \<not> Q x)"
  by (induction ts) auto

lemma search_origins_Some:
  "search_origins P origs ts = Some t \<Longrightarrow> t \<in> set ts \<and> origin_of t \<in> set origs \<and> P t"
  by (induction origs) (auto split: option.splits dest: find_Some_member)

lemma search_origins_None:
  "(search_origins P origs ts = None) = (\<forall>t\<in>set ts. origin_of t \<in> set origs \<longrightarrow> \<not> P t)"
  by (induction origs) (auto simp: find_None_all split: option.splits dest: find_Some_member)

lemma scan_languages_None:
  "(scan_languages m origs ts codes = None) =
     (\<forall>c\<in>set codes. \<forall>t\<in>set ts. origin_of t \<in> set origs \<longrightarrow> \<not> m c t)"
  by (induction codes)
     (auto simp: search_origins_None split: option.splits dest: search_origins_Some)

text \<open>
  A successful scan returns a Descriptor that matches the first requested code for
  which any allowed Descriptor matches.
\<close>

lemma scan_languages_Some:
  "scan_languages m origs ts codes = Some t \<Longrightarrow>
     t \<in> set ts \<and> origin_of t \<in> set origs \<and>
     (\<exists>c. List.find (\<lambda>c. \<exists>t'\<in>set ts. origin_of t' \<in> set origs \<and> m c t') codes = Some c
          \<and> m c t)"
proof (induction codes)
  case Nil
  then show ?case by simp
next
  case (Cons c cs)
  show ?case
  proof (cases "search_origins (m c) origs ts")
    case None
    then have "\<not> (\<exists>t'\<in>set ts. origin_of t' \<in> set origs \<and> m c t')"
      by (simp add: search_origins_None)
    with Cons None show ?thesis by simp
  next
    case (Some t')
    with Cons.prems have "t' = t" by simp
    with Some search_origins_Some [of "m c" origs ts t] show ?thesis by auto
  qed
qed

section \<open>Selecting a transcript: no match\<close>

text \<open>
  C4. For every Catalog and every sequence of requested codes: when no Descriptor of an
  allowed origin matches a requested code exactly or by primary subtag, the search
  fails with \<open>NoTranscriptFound\<close>, and the failure carries the language codes of all
  Descriptors of the Catalog. \<open>find_transcript\<close> is the search with both origins
  allowed.
\<close>

theorem find_transcript_no_match:
  assumes "\<forall>t\<in>set (descriptors catalog). origin_of t \<in> set allowed \<longrightarrow>
             (\<forall>c\<in>set requested. \<not> exact_match c t \<and> \<not> subtag_match c t)"
  shows "find_transcript_among catalog requested allowed =
           Inl (NoTranscriptFound (catalog_video_id catalog) requested
                  (map language_code (descriptors catalog)))"
proof -
  from assms have "scan_languages exact_match allowed (descriptors catalog) requested = None"
    by (simp add: scan_languages_None)
  moreover from assms
  have "scan_languages subtag_match allowed (descriptors catalog) requested = None"
    by (simp add: scan_languages_None)
  ultimately show ?thesis by (simp add: find_transcript_among_def)
qed

theorem find_transcript_no_match_witness:
  "find_transcript example_catalog [''de'', ''es-MX''] =
     Inl (NoTranscriptFound ''vid1'' [''de'', ''es-MX''] [''en'', ''fr-CA'', ''en''])"
  using find_transcript_no_match [of example_catalog "[Manual, Generated]" "[''de'', ''es-MX'']"]
  by (simp add: find_transcript_def example_catalog_def en_generated_def fr_CA_manual_def
      en_manual_def exact_match_def subtag_match_def primary_subtag_def)

section \<open>Selecting a transcript: exact matches first\<close>

text \<open>
  C5. For every Catalog and every sequence of requested codes: when some requested code
  is the language code of a Descriptor of an allowed origin, the search returns an
  allowed Descriptor of the Catalog whose language code is a requested code, namely
  the first requested code that has an exact match. So a match by primary subtag for a
  code of higher priority never wins over an exact match for a code of lower priority.
\<close>

theorem find_transcript_exact_first:
  assumes "\<exists>c\<in>set requested. \<exists>t\<in>set (descriptors catalog).
             origin_of t \<in> set allowed \<and> language_code t = c"
  shows "\<exists>t. find_transcript_among catalog requested allowed = Inr t
           \<and> t \<in> set (descriptors catalog) \<and> origin_of t \<in> set allowed
           \<and> language_code t \<in> set requested
           \<and> List.find (\<lambda>c. \<exists>t'\<in>set (descriptors catalog).
                            origin_of t' \<in> set allowed \<and> language_code t' = c) requested
               = Some (language_code t)"
proof -
  from assms have "scan_languages exact_match allowed (descriptors catalog) requested \<noteq> None"
    by (auto simp: scan_languages_None exact_match_def)
  then obtain t where
    t: "scan_languages exact_match allowed (descriptors catalog) requested = Some t"
    by auto
  from scan_languages_Some [OF t] obtain c where
    c: "t \<in> set (descriptors catalog)" "origin_of t \<in> set allowed"
       "List.find (\<lambda>c. \<exists>t'\<in>set (descriptors catalog).
                     origin_of t' \<in> set allowed \<and> exact_match c t') requested = Some c"
       "exact_match c t"
    by auto
  from c(3) have "c \<in> set requested" by (auto dest: find_Some_member)
  with t c show ?thesis
    by (auto simp: find_transcript_among_def exact_match_def)
qed

text \<open>
  The requested \<open>fr\<close> has only the approximate match \<open>fr-CA\<close>; the requested \<open>en\<close>, of
  lower priority, has exact matches, and the manually created one is returned.
\<close>

theorem find_transcript_exact_first_witness:
  "find_transcript example_catalog [''fr'', ''en''] = Inr en_manual
   \<and> subtag_match ''fr'' fr_CA_manual
   \<and> language_code en_manual = ''en''"
  using find_transcript_exact_first [of "[''fr'', ''en'']" example_catalog "[Manual, Generated]"]
  by (simp add: find_transcript_def find_transcript_among_def example_catalog_def
      en_generated_def fr_CA_manual_def en_manual_def exact_match_def subtag_match_def
      primary_subtag_def origin_of_def)

section \<open>The shortcut\<close>


section \<open>The trace only grows\<close>

lemma load_cookies_trace: "snd (load_cookies e p v tr) = tr @ [LoadCookieFile p]"
  by (simp add: load_cookies_def Let_def)

lemma list_transcripts_trace:
  "\<exists>new. snd (list_transcripts e v proxies cookies verify tr) = tr @ new \<and> new \<noteq> []"
proof (cases "load_cookies e (the cookies) v tr")
  case (Pair r tr1)
  with load_cookies_trace [of e "the cookies" v tr]
  have "tr1 = tr @ [LoadCookieFile (the cookies)]"
    by simp
  with Pair show ?thesis
    by (auto simp: list_transcripts_def Let_def split: option.splits sum.splits)
qed

text \<open>A call with a string performs at least one operation on the outside world.\<close>

lemma get_transcript_str_trace:
  "\<exists>new. snd (get_transcript e (PStr v) languages proxies cookies pf verify tr) = tr @ new
     \<and> new \<noteq> []"
proof (cases "list_transcripts e v proxies cookies verify tr")
  case (Pair r tr1)
  with list_transcripts_trace [of e v proxies cookies verify tr]
  obtain new where "tr1 = tr @ new" "new \<noteq> []" by auto
  with Pair show ?thesis
    by (auto simp: get_transcript_def fetch_def split: sum.splits)
qed

lemma get_transcript_not_str:
  "\<not> isinstance_str video_id \<Longrightarrow>
   get_transcript e video_id languages proxies cookies pf verify tr =
     (Inl (AssertionError ''`video_id` must be a string''), tr)"
  by (cases video_id) (simp_all add: get_transcript_def)

lemma get_transcript_trace:
  "\<exists>new. snd (get_transcript e video_id languages proxies cookies pf verify tr) = tr @ new"
proof (cases "isinstance_str video_id")
  case True
  then obtain v where "video_id = PStr v" by (cases video_id) auto
  with get_transcript_str_trace [of e v languages proxies cookies pf verify tr]
  show ?thesis by auto
next
  case False
  then show ?thesis by (simp add: get_transcript_not_str)
qed

text \<open>The chain always performs an operation on the outside world.\<close>

lemma shortcut_chain_trace:
  "\<exists>new. snd (shortcut_chain e s languages proxies cookies pf verify tr) = tr @ new \<and> new \<noteq> []"
proof (cases "list_transcripts e s proxies cookies verify tr")
  case (Pair r tr1)
  with list_transcripts_trace [of e s proxies cookies verify tr]
  obtain new where "tr1 = tr @ new" "new \<noteq> []" by auto
  with Pair show ?thesis
    by (auto simp: shortcut_chain_def and_then_def pure_call_def fetch_def split: sum.splits)
qed

text \<open>
  For a video id that is not a string the two differ, whatever string the chain is
  given: \<open>get_transcript\<close> stops at its assertion and leaves the outside world alone.
\<close>

lemma get_transcript_not_shortcut:
  assumes "\<not> isinstance_str video_id"
  shows "get_transcript e video_id languages proxies cookies pf verify tr \<noteq>
           shortcut_chain e s languages proxies cookies pf verify tr"
proof
  assume same: "get_transcript e video_id languages proxies cookies pf verify tr =
                  shortcut_chain e s languages proxies cookies pf verify tr"
  from assms have "snd (get_transcript e video_id languages proxies cookies pf verify tr) = tr"
    by (simp add: get_transcript_not_str)
  with same shortcut_chain_trace [of e s languages proxies cookies pf verify tr]
  show False by auto
qed


section \<open>The transport configuration\<close>

text \<open>The three ways a call of \<open>list_transcripts\<close> can go.\<close>

lemma list_transcripts_without_cookies:
  "cookies = None \<or> cookies = Some [] \<Longrightarrow>
   list_transcripts e video_id proxies cookies verify tr =
     (transcript_list_fetcher e tr (configured [] proxies verify) video_id,
      tr @ [FetchTranscriptList (configured [] proxies verify) video_id])"
  by (cases proxies; cases verify)
     (auto simp: list_transcripts_def Let_def Session_def configured_def)

lemma list_transcripts_cookies_loaded:
  "path \<noteq> [] \<Longrightarrow> cookie_file e tr path = Inr jar \<Longrightarrow> jar \<noteq> [] \<Longrightarrow>
   list_transcripts e video_id proxies (Some path) verify tr =
     (transcript_list_fetcher e (tr @ [LoadCookieFile path]) (configured jar proxies verify) video_id,
      tr @ [LoadCookieFile path, FetchTranscriptList (configured jar proxies verify) video_id])"
  by (cases proxies; cases verify)
     (simp_all add: list_transcripts_def load_cookies_def Let_def Session_def configured_def)

lemma list_transcripts_cookies_fail:
  "path \<noteq> [] \<Longrightarrow> cookie_file e tr path = Inl x \<or> cookie_file e tr path = Inr [] \<Longrightarrow>
   \<exists>y. list_transcripts e video_id proxies (Some path) verify tr = (Inl y, tr @ [LoadCookieFile path])"
  by (auto simp: list_transcripts_def load_cookies_def Let_def)

text \<open>
  C8. For every call of \<open>list_transcripts\<close>, every session that the call hands to the
  transcript fetcher has the caller's configuration: its proxies are the given map
  (the empty map when none is given), its verify setting is the given value (the
  default of a new session when \<open>verify\<close> is \<open>None\<close>), and its cookie jar is the one
  loaded from the given path (the jar of a new session when no path is given). That
  session is the one the fetcher works with: the call returns what the fetcher answers
  for it, asked as the last operation of the call. The call hands over exactly one
  session, unless loading the cookies raised; then it raises and hands over none.
\<close>

theorem list_transcripts_transport_configuration:
  "\<exists>new. snd (list_transcripts e video_id proxies cookies verify tr) = tr @ new
     \<and> (\<forall>s\<in>set (sessions_of new).
           session_proxies s = (case proxies of None \<Rightarrow> [] | Some p \<Rightarrow> p)
         \<and> session_verify s = (case verify of None \<Rightarrow> session_verify Session | Some v \<Rightarrow> v)
         \<and> (case cookies of
               None \<Rightarrow> session_cookies s = session_cookies Session
             | Some path \<Rightarrow>
                 if path = [] then session_cookies s = session_cookies Session
                 else cookie_file e tr path = Inr (session_cookies s))
         \<and> list_transcripts e video_id proxies cookies verify tr =
             (transcript_list_fetcher e (butlast (tr @ new)) s video_id,
              butlast (tr @ new) @ [FetchTranscriptList s video_id]))
     \<and> length (sessions_of new) =
         (case cookies of
            None \<Rightarrow> 1
          | Some path \<Rightarrow>
              if path = [] then 1
              else (case cookie_file e tr path of
                      Inl x \<Rightarrow> 0
                    | Inr jar \<Rightarrow> if jar = [] then 0 else 1))
     \<and> (sessions_of new = [] \<longrightarrow>
          (\<exists>x. fst (list_transcripts e video_id proxies cookies verify tr) = Inl x))"
proof -
  consider (none) "cookies = None \<or> cookies = Some []"
    | (fail) path where "cookies = Some path" "path \<noteq> []"
        "(\<exists>x. cookie_file e tr path = Inl x) \<or> cookie_file e tr path = Inr []"
    | (loaded) path jar where "cookies = Some path" "path \<noteq> []"
        "cookie_file e tr path = Inr jar" "jar \<noteq> []"
    by (cases cookies; cases "cookie_file e tr (the cookies)") auto
  then show ?thesis
  proof cases
    case none
    let ?s = "configured [] proxies verify"
    note lt = list_transcripts_without_cookies [OF none, of e video_id proxies verify tr]
    show ?thesis
      apply (rule exI [of _ "[FetchTranscriptList ?s video_id]"])
      using none
      apply (simp only: lt)
      apply (auto simp: configured_def Session_def split: option.splits)
      done
  next
    case fail
    from fail(3) obtain y where
      lt: "list_transcripts e video_id proxies (Some path) verify tr =
             (Inl y, tr @ [LoadCookieFile path])"
      using list_transcripts_cookies_fail [OF fail(2), of e tr _ video_id proxies verify]
      by blast
    show ?thesis
      apply (rule exI [of _ "[LoadCookieFile path]"])
      using fail
      apply (simp only: lt)
      apply auto
      done
  next
    case loaded
    let ?s = "configured jar proxies verify"
    note lt = list_transcripts_cookies_loaded [OF loaded(2,3,4), of video_id proxies verify]
    show ?thesis
      apply (rule exI [of _ "[LoadCookieFile path, FetchTranscriptList ?s video_id]"])
      using loaded
      apply (simp only: lt)
      apply (auto simp: configured_def Session_def butlast_append split: option.splits)
      done
  qed
qed

text \<open>
  In the second example world only the configured session is answered: the call with
  the proxy, the cookie file and the certificate file returns the catalog, the call
  without them is refused.
\<close>

theorem list_transcripts_transport_configuration_witness:
  "list_transcripts proxy_only_env ''vid1'' (Some [(''https'', ''http://proxy:8080'')])
          (Some ''cookies.txt'') (Some (VerifyPath ''ca.pem'')) [] =
     (Inr example_catalog,
      [LoadCookieFile ''cookies.txt'', FetchTranscriptList proxied_session ''vid1''])
   \<and> cookie_file proxy_only_env [] ''cookies.txt'' = Inr (session_cookies proxied_session)
   \<and> session_proxies proxied_session = [(''https'', ''http://proxy:8080'')]
   \<and> session_verify proxied_session = VerifyPath ''ca.pem''
   \<and> list_transcripts proxy_only_env ''vid1'' None None None [] =
       (Inl (CouldNotRetrieveTranscript ''vid1'' ''RequestBlocked''),
        [FetchTranscriptList Session ''vid1''])"
proof -
  have run: "list_transcripts proxy_only_env ''vid1'' (Some [(''https'', ''http://proxy:8080'')])
          (Some ''cookies.txt'') (Some (VerifyPath ''ca.pem'')) [] =
     (Inr example_catalog,
      [LoadCookieFile ''cookies.txt'', FetchTranscriptList proxied_session ''vid1''])"
    by (simp add: list_transcripts_def load_cookies_def proxy_only_env_def Session_def
        proxied_session_def)
  have blocked: "list_transcripts proxy_only_env ''vid1'' None None None [] =
       (Inl (CouldNotRetrieveTranscript ''vid1'' ''RequestBlocked''),
        [FetchTranscriptList Session ''vid1''])"
    by (simp add: list_transcripts_def proxy_only_env_def Session_def proxied_session_def)
  have fields: "cookie_file proxy_only_env [] ''cookies.txt'' = Inr (session_cookies proxied_session)
    \<and> session_proxies proxied_session = [(''https'', ''http://proxy:8080'')]
    \<and> session_verify proxied_session = VerifyPath ''ca.pem''"
    by (simp add: proxy_only_env_def proxied_session_def)
  from list_transcripts_transport_configuration [of proxy_only_env "''vid1''" "Some [(''https'', ''http://proxy:8080'')]"
             "Some ''cookies.txt''" "Some (VerifyPath ''ca.pem'')" "[]"]
  have grows: "\<exists>new. snd (list_transcripts proxy_only_env ''vid1''
                 (Some [(''https'', ''http://proxy:8080'')]) (Some ''cookies.txt'')
                 (Some (VerifyPath ''ca.pem'')) []) = [] @ new"
    by - (elim exE conjE, intro exI, assumption)
  from grows run blocked fields show ?thesis by simp
qed

section \<open>The loop of \<open>get_transcripts\<close>\<close>

lemma loop_append:
  "get_transcripts_loop e l c p k f v (xs @ ys) data unret tr =
     (case get_transcripts_loop e l c p k f v xs data unret tr of
        (Inl x, t) \<Rightarrow> (Inl x, t)
      | (Inr (d, u), t) \<Rightarrow> get_transcripts_loop e l c p k f v ys d u t)"
  by (induction xs arbitrary: data unret tr) (auto split: prod.splits sum.splits)

text \<open>With \<open>continue_after_error\<close> the loop always returns, and only appends to the list.\<close>

lemma loop_continue_returns:
  "\<exists>d rest t.
     get_transcripts_loop e l True p k f v ids data unret tr = (Inr (d, unret @ rest), t)"
proof (induction ids arbitrary: data unret tr)
  case Nil
  then show ?case by simp
next
  case (Cons i ids)
  obtain r tr1 where g: "get_transcript e i l p k f v tr = (r, tr1)"
    by (cases "get_transcript e i l p k f v tr")
  show ?case
  proof (cases r)
    case (Inl x)
    from Cons.IH [of data "unret @ [i]" tr1] obtain d rest t where
      "get_transcripts_loop e l True p k f v ids data (unret @ [i]) tr1 =
         (Inr (d, (unret @ [i]) @ rest), t)"
      by blast
    with g Inl show ?thesis by simp
  next
    case (Inr cues)
    from Cons.IH [of "AList.update i cues data" unret tr1] obtain d rest t where
      "get_transcripts_loop e l True p k f v ids (AList.update i cues data) unret tr1 =
         (Inr (d, unret @ rest), t)"
      by blast
    with g Inr show ?thesis by simp
  qed
qed

section \<open>An exception while retrieving one video\<close>

text \<open>
  C1. For every list of video ids and every position in it that the loop reaches (the
  ids before it have been processed, with the dictionary \<open>data\<close> and the list \<open>unret\<close>
  as the result) and at which \<open>get_transcript\<close> raises: when \<open>continue_after_error\<close> is false,
  \<open>get_transcripts\<close> raises that exception, and the trace is the one of the failing
  call, so no later id is processed and nothing is returned; when it is true, the
  failing id is appended to the list of unretrievable videos, the loop goes on with
  the remaining ids, and the call returns a list that holds the failing id.
\<close>

theorem get_transcripts_on_error:
  assumes before: "get_transcripts e (PList before) languages c proxies cookies pf verify tr =
                     (Inr (data, unret), tr1)"
      and fails: "get_transcript e video_id languages proxies cookies pf verify tr1 = (Inl x, tr2)"
  shows "(\<not> c \<longrightarrow>
            get_transcripts e (PList (before @ video_id # after)) languages c proxies cookies pf
              verify tr = (Inl x, tr2))
       \<and> (c \<longrightarrow>
            get_transcripts e (PList (before @ video_id # after)) languages c proxies cookies pf
              verify tr =
            get_transcripts_loop e languages c proxies cookies pf verify after data
              (unret @ [video_id]) tr2
          \<and> (\<exists>data' rest tr'.
                get_transcripts e (PList (before @ video_id # after)) languages c proxies cookies
                  pf verify tr = (Inr (data', unret @ video_id # rest), tr')))"
proof -
  have step: "get_transcripts e (PList (before @ video_id # after)) languages c proxies cookies pf
                verify tr =
              (if \<not> c then (Inl x, tr2)
               else get_transcripts_loop e languages c proxies cookies pf verify after data
                      (unret @ [video_id]) tr2)"
    using before fails by (simp add: get_transcripts_def loop_append)
  show ?thesis
  proof (cases c)
    case False
    with step show ?thesis by simp
  next
    case True
    from loop_continue_returns [of e languages proxies cookies pf verify after data
        "unret @ [video_id]" tr2]
    obtain d rest t where
      "get_transcripts_loop e languages True proxies cookies pf verify after data
         (unret @ [video_id]) tr2 = (Inr (d, (unret @ [video_id]) @ rest), t)"
      by blast
    with step True show ?thesis by simp
  qed
qed

text \<open>The example world, run on three ids: one that succeeds, one video that is gone, one
  id that is not a string.\<close>

lemma example_get_vid1:
  "get_transcript example_env (PStr ''vid1'') [''en''] None None False None [] =
     (Inr example_cues, trace_vid1)"
  by (simp add: get_transcript_def list_transcripts_def fetch_def find_transcript_def
      find_transcript_among_def example_env_def example_catalog_def exact_match_def
      origin_of_def en_generated_def fr_CA_manual_def en_manual_def trace_vid1_def Session_def)

lemma example_get_gone:
  "get_transcript example_env (PStr ''gone'') [''en''] None None False None trace_vid1 =
     (Inl (CouldNotRetrieveTranscript ''gone'' ''VideoUnavailable''), trace_gone)"
  by (simp add: get_transcript_def list_transcripts_def example_env_def trace_gone_def
      Session_def)

lemma example_get_int:
  "get_transcript example_env (PInt 3) [''en''] None None False None tr =
     (Inl (AssertionError ''`video_id` must be a string''), tr)"
  by (simp add: get_transcript_def)

lemma example_before:
  "get_transcripts example_env (PList [PStr ''vid1'']) [''en''] c None None False None [] =
     (Inr ([(PStr ''vid1'', example_cues)], []), trace_vid1)"
  by (simp add: get_transcripts_def example_get_vid1)

theorem get_transcripts_on_error_witness:
  "get_transcripts example_env (PList [PStr ''vid1'']) [''en''] False None None False None [] =
     (Inr ([(PStr ''vid1'', example_cues)], []), trace_vid1)
   \<and> get_transcript example_env (PStr ''gone'') [''en''] None None False None trace_vid1 =
     (Inl (CouldNotRetrieveTranscript ''gone'' ''VideoUnavailable''), trace_gone)
   \<and> get_transcripts example_env (PList [PStr ''vid1'', PStr ''gone'', PInt 3]) [''en''] False
       None None False None [] =
     (Inl (CouldNotRetrieveTranscript ''gone'' ''VideoUnavailable''), trace_gone)
   \<and> get_transcripts example_env (PList [PStr ''vid1'', PStr ''gone'', PInt 3]) [''en''] True
       None None False None [] =
     (Inr ([(PStr ''vid1'', example_cues)], [PStr ''gone'', PInt 3]), trace_gone)"
proof -
  note stop =
    get_transcripts_on_error
      [where c = False and after = "[PInt 3]", OF example_before example_get_gone]
  note continue =
    get_transcripts_on_error
      [where c = True and after = "[PInt 3]", OF example_before example_get_gone]
  from stop continue show ?thesis
    by (simp add: example_before example_get_gone example_get_int)
qed


theorem defaults_when_omitted_witness:
  "get_transcript_call example_env (PStr ''vid1'') None None None None None [] =
     (Inr example_cues, [FetchTranscriptList Session ''vid1'', FetchPayload en_manual False])"
  using defaults_when_omitted
    [where e = example_env and video_id = "PStr ''vid1''" and proxies = None and cookies = None
       and verify = None and tr = "[]"]
  by (simp add: example_get_vid1 trace_vid1_def)

section \<open>Continuing after errors: every id lands in one place\<close>

lemma fetched_ids_append: "fetched_ids (xs @ ys) = fetched_ids xs @ fetched_ids ys"
  by (induction xs rule: fetched_ids.induct) auto

lemma list_transcripts_fetched:
  "\<exists>new. snd (list_transcripts e s p k v tr) = tr @ new
     \<and> (fetched_ids new = [] \<or> fetched_ids new = [PStr s])"
  by (cases "cookie_file e tr (the k)")
     (auto simp: list_transcripts_def load_cookies_def Let_def
       split: option.splits sum.splits if_splits)

text \<open>One call of \<open>get_transcript\<close> requests the transcript list of its id at most once.\<close>

lemma get_transcript_fetched:
  "\<exists>new. snd (get_transcript e i l p k f v tr) = tr @ new
     \<and> (fetched_ids new = [] \<or> fetched_ids new = [i])"
proof (cases i)
  case (PStr s)
  obtain r tr1 where lt: "list_transcripts e s p k v tr = (r, tr1)"
    by (cases "list_transcripts e s p k v tr")
  with list_transcripts_fetched [of e s p k v tr] obtain new where
    new: "tr1 = tr @ new" "fetched_ids new = [] \<or> fetched_ids new = [PStr s]"
    by auto
  show ?thesis
  proof (cases r)
    case (Inl x)
    with PStr lt new show ?thesis by (simp add: get_transcript_def)
  next
    case (Inr catalog)
    show ?thesis
    proof (cases "find_transcript catalog l")
      case (Inl x)
      with PStr lt new Inr show ?thesis by (simp add: get_transcript_def)
    next
      case (Inr t)
      with PStr lt new \<open>r = Inr catalog\<close> show ?thesis
        by (simp add: get_transcript_def fetch_def fetched_ids_append)
    qed
  qed
qed (simp_all add: get_transcript_def)

lemma fold_fetched:
  "distinct ids \<Longrightarrow>
   \<exists>new Q. foldl (\<lambda>t i. snd (get_transcript e i l p k f v t)) tr ids = tr @ new
     \<and> fetched_ids new = filter Q ids"
proof (induction ids arbitrary: tr)
  case Nil
  then show ?case by simp
next
  case (Cons i ids)
  from Cons.prems have notin: "i \<notin> set ids" and dist: "distinct ids" by auto
  from get_transcript_fetched [of e i l p k f v tr] obtain n1 where
    n1: "snd (get_transcript e i l p k f v tr) = tr @ n1"
    and f1: "fetched_ids n1 = [] \<or> fetched_ids n1 = [i]"
    by blast
  from Cons.IH [OF dist, of "tr @ n1"] obtain n2 Q where
    n2: "foldl (\<lambda>t i. snd (get_transcript e i l p k f v t)) (tr @ n1) ids = (tr @ n1) @ n2"
    and f2: "fetched_ids n2 = filter Q ids"
    by blast
  let ?Q = "\<lambda>j. if j = i then fetched_ids n1 = [i] else Q j"
  from notin have "filter ?Q ids = filter Q ids" by (auto intro: filter_cong)
  with f1 f2 have "fetched_ids (n1 @ n2) = filter ?Q (i # ids)"
    by (auto simp: fetched_ids_append)
  moreover from n1 n2
  have "foldl (\<lambda>t i. snd (get_transcript e i l p k f v t)) tr (i # ids) = tr @ (n1 @ n2)"
    by simp
  ultimately show ?case by blast
qed

lemma filter_by_own_set: "filter (\<lambda>i. i \<in> set (filter Q ids)) ids = filter Q ids"
  by (auto intro: filter_cong)

lemma filter_by_other_set:
  "filter (\<lambda>i. i \<notin> set (filter Q ids)) ids = filter (\<lambda>i. \<not> Q i) ids"
  by (auto intro: filter_cong)

text \<open>
  The loop on distinct ids that are not yet keys of the dictionary: the failing ids are
  appended to the list in input order, the other ids are appended to the keys in input
  order, and the trace is the one of one call of \<open>get_transcript\<close> per id.
\<close>

lemma loop_continue_partition:
  assumes "distinct ids" and "set ids \<inter> fst ` set data = {}"
  shows "\<exists>d P. get_transcripts_loop e l True p k f v ids data unret tr =
            (Inr (d, unret @ filter P ids),
             foldl (\<lambda>t i. snd (get_transcript e i l p k f v t)) tr ids)
          \<and> map fst d = map fst data @ filter (\<lambda>i. \<not> P i) ids"
  using assms
proof (induction ids arbitrary: data unret tr)
  case Nil
  then show ?case by simp
next
  case (Cons i ids)
  obtain r tr1 where g: "get_transcript e i l p k f v tr = (r, tr1)"
    by (cases "get_transcript e i l p k f v tr")
  from Cons.prems have notin: "i \<notin> set ids" and dist: "distinct ids"
    and fresh: "i \<notin> fst ` set data" and rest: "set ids \<inter> fst ` set data = {}"
    by auto
  show ?case
  proof (cases r)
    case (Inl x)
    from Cons.IH [OF dist rest, of "unret @ [i]" tr1] obtain d P where
      run: "get_transcripts_loop e l True p k f v ids data (unret @ [i]) tr1 =
              (Inr (d, (unret @ [i]) @ filter P ids),
               foldl (\<lambda>t i. snd (get_transcript e i l p k f v t)) tr1 ids)"
      and keys: "map fst d = map fst data @ filter (\<lambda>i. \<not> P i) ids"
      by blast
    let ?Q = "\<lambda>j. j = i \<or> P j"
    from notin have "filter ?Q ids = filter P ids" by (auto intro: filter_cong)
    moreover from notin have "filter (\<lambda>j. \<not> ?Q j) ids = filter (\<lambda>j. \<not> P j) ids"
      by (auto intro: filter_cong)
    ultimately have "get_transcripts_loop e l True p k f v (i # ids) data unret tr =
            (Inr (d, unret @ filter ?Q (i # ids)),
             foldl (\<lambda>t i. snd (get_transcript e i l p k f v t)) tr (i # ids))
          \<and> map fst d = map fst data @ filter (\<lambda>j. \<not> ?Q j) (i # ids)"
      using g Inl run keys by simp
    then show ?thesis by blast
  next
    case (Inr cues)
    from fresh have upd: "map fst (AList.update i cues data) = map fst data @ [i]"
      by (simp add: update_keys image_iff)
    then have "fst ` set (AList.update i cues data) = insert i (fst ` set data)"
      by (metis Un_insert_right append_Nil2 list.set(2) list.set_map set_append)
    with rest notin have rest': "set ids \<inter> fst ` set (AList.update i cues data) = {}"
      by simp
    from Cons.IH [OF dist rest', of unret tr1] obtain d P where
      run: "get_transcripts_loop e l True p k f v ids (AList.update i cues data) unret tr1 =
              (Inr (d, unret @ filter P ids),
               foldl (\<lambda>t i. snd (get_transcript e i l p k f v t)) tr1 ids)"
      and keys: "map fst d = map fst (AList.update i cues data) @ filter (\<lambda>i. \<not> P i) ids"
      by blast
    let ?Q = "\<lambda>j. j \<noteq> i \<and> P j"
    from notin have "filter ?Q ids = filter P ids" by (auto intro: filter_cong)
    moreover from notin have "filter (\<lambda>j. \<not> ?Q j) ids = filter (\<lambda>j. \<not> P j) ids"
      by (auto intro: filter_cong)
    ultimately have "get_transcripts_loop e l True p k f v (i # ids) data unret tr =
            (Inr (d, unret @ filter ?Q (i # ids)),
             foldl (\<lambda>t i. snd (get_transcript e i l p k f v t)) tr (i # ids))
          \<and> map fst d = map fst data @ filter (\<lambda>j. \<not> ?Q j) (i # ids)"
      using g Inr run keys upd by simp
    then show ?thesis by blast
  qed
qed

text \<open>
  The loop against the run of the calls: the dictionary gains the ids whose call
  returned, with what it returned, and the list gains the ids whose call raised, both in
  the order of the calls.
\<close>

lemma attempts_ids: "map fst (attempts e l p k f v ids tr) = ids"
  by (induction ids arbitrary: tr) (auto split: prod.splits)

lemma update_fresh: "k \<notin> fst ` set al \<Longrightarrow> AList.update k v al = al @ [(k, v)]"
  by (induction al) auto

lemma loop_continue_outcomes:
  assumes "distinct ids" and "set ids \<inter> fst ` set data = {}"
  shows "fst (get_transcripts_loop e l True p k f v ids data unret tr) =
           Inr (data @ retrieved (attempts e l p k f v ids tr),
                unret @ failed_ids (attempts e l p k f v ids tr))"
  using assms
proof (induction ids arbitrary: data unret tr)
  case Nil
  then show ?case by simp
next
  case (Cons i ids)
  obtain r tr1 where g: "get_transcript e i l p k f v tr = (r, tr1)"
    by (cases "get_transcript e i l p k f v tr")
  from Cons.prems have notin: "i \<notin> set ids" and dist: "distinct ids"
    and fresh: "i \<notin> fst ` set data" and rest: "set ids \<inter> fst ` set data = {}"
    by auto
  show ?case
  proof (cases r)
    case (Inl x)
    from Cons.IH [OF dist rest, of "unret @ [i]" tr1] g Inl show ?thesis by simp
  next
    case (Inr cues)
    from fresh have upd: "AList.update i cues data = data @ [(i, cues)]"
      by (rule update_fresh)
    from rest notin have rest': "set ids \<inter> fst ` set (data @ [(i, cues)]) = {}" by auto
    from Cons.IH [OF dist rest', of unret tr1] g Inr upd show ?thesis by simp
  qed
qed

text \<open>
  C9. For every list of pairwise distinct video ids, \<open>get_transcripts\<close> with
  \<open>continue_after_error\<close> true returns; every input id is a key of the returned
  dictionary or an element of the returned list, and never both; no key and no
  element is repeated. Each id is attempted once: the calls of \<open>get_transcript\<close> are
  one per id, in input order, the operations on the outside world are those of these
  calls, and among them the transcript list of an id is requested at most once. The
  returned list is the ids whose call raised, in input order, and the dictionary the
  ids whose call returned, each with what its call returned, in input order.
\<close>

theorem get_transcripts_continue_partition:
  assumes "distinct ids"
  shows "\<exists>data unret new.
           get_transcripts e (PList ids) languages True proxies cookies pf verify tr =
             (Inr (data, unret), tr @ new)
         \<and> tr @ new =
             foldl (\<lambda>t i. snd (get_transcript e i languages proxies cookies pf verify t)) tr ids
         \<and> fetched_ids new = filter (\<lambda>i. i \<in> set (fetched_ids new)) ids
         \<and> fst ` set data \<union> set unret = set ids
         \<and> fst ` set data \<inter> set unret = {}
         \<and> distinct (map fst data) \<and> distinct unret
         \<and> unret = filter (\<lambda>i. i \<in> set unret) ids
         \<and> map fst data = filter (\<lambda>i. i \<notin> set unret) ids
         \<and> map fst (attempts e languages proxies cookies pf verify ids tr) = ids
         \<and> unret = failed_ids (attempts e languages proxies cookies pf verify ids tr)
         \<and> data = retrieved (attempts e languages proxies cookies pf verify ids tr)"
proof -
  from loop_continue_partition [OF assms, of "[]" e languages proxies cookies pf verify "[]" tr]
  obtain d P where
    run: "get_transcripts_loop e languages True proxies cookies pf verify ids [] [] tr =
            (Inr (d, filter P ids),
             foldl (\<lambda>t i. snd (get_transcript e i languages proxies cookies pf verify t)) tr ids)"
    and keys: "map fst d = filter (\<lambda>i. \<not> P i) ids"
    by auto
  from fold_fetched [OF assms, of e languages proxies cookies pf verify tr] obtain new Q where
    new: "foldl (\<lambda>t i. snd (get_transcript e i languages proxies cookies pf verify t)) tr ids =
            tr @ new"
    and fetched: "fetched_ids new = filter Q ids"
    by blast
  have once: "fetched_ids new = filter (\<lambda>i. i \<in> set (fetched_ids new)) ids"
    unfolding fetched by (rule filter_by_own_set [symmetric])
  from keys have keyset: "fst ` set d = {i \<in> set ids. \<not> P i}"
    by (metis list.set_map set_filter)
  have cover: "fst ` set d \<union> set (filter P ids) = set ids" using keyset by auto
  have apart: "fst ` set d \<inter> set (filter P ids) = {}" using keyset by auto
  have dkeys: "distinct (map fst d)" using keys assms by simp
  have dlist: "distinct (filter P ids)" using assms by simp
  have order: "filter P ids = filter (\<lambda>i. i \<in> set (filter P ids)) ids"
    by (rule filter_by_own_set [symmetric])
  have korder: "map fst d = filter (\<lambda>i. i \<notin> set (filter P ids)) ids"
    unfolding keys by (rule filter_by_other_set [symmetric])
  have result: "get_transcripts e (PList ids) languages True proxies cookies pf verify tr =
                  (Inr (d, filter P ids), tr @ new)"
    using run new by (simp add: get_transcripts_def)
  from loop_continue_outcomes [OF assms, of "[]" e languages proxies cookies pf verify "[]" tr]
  have outcomes: "fst (get_transcripts_loop e languages True proxies cookies pf verify ids [] []
                         tr) =
                  Inr (retrieved (attempts e languages proxies cookies pf verify ids tr),
                       failed_ids (attempts e languages proxies cookies pf verify ids tr))"
    by simp
  from run outcomes
  have failed: "filter P ids = failed_ids (attempts e languages proxies cookies pf verify ids tr)"
    and stored: "d = retrieved (attempts e languages proxies cookies pf verify ids tr)"
    by simp_all
  show ?thesis
  proof (intro exI conjI)
    show "get_transcripts e (PList ids) languages True proxies cookies pf verify tr =
            (Inr (d, filter P ids), tr @ new)"
      by (rule result)
    show "tr @ new =
            foldl (\<lambda>t i. snd (get_transcript e i languages proxies cookies pf verify t)) tr ids"
      by (rule new [symmetric])
    show "fetched_ids new = filter (\<lambda>i. i \<in> set (fetched_ids new)) ids" by (rule once)
    show "fst ` set d \<union> set (filter P ids) = set ids" by (rule cover)
    show "fst ` set d \<inter> set (filter P ids) = {}" by (rule apart)
    show "distinct (map fst d)" by (rule dkeys)
    show "distinct (filter P ids)" by (rule dlist)
    show "filter P ids = filter (\<lambda>i. i \<in> set (filter P ids)) ids" by (rule order)
    show "map fst d = filter (\<lambda>i. i \<notin> set (filter P ids)) ids" by (rule korder)
    show "map fst (attempts e languages proxies cookies pf verify ids tr) = ids"
      by (rule attempts_ids)
    show "filter P ids = failed_ids (attempts e languages proxies cookies pf verify ids tr)"
      by (rule failed)
    show "d = retrieved (attempts e languages proxies cookies pf verify ids tr)"
      by (rule stored)
  qed
qed

theorem get_transcripts_continue_partition_witness:
  "distinct [PStr ''vid1'', PStr ''gone'', PInt 3]
   \<and> get_transcripts example_env (PList [PStr ''vid1'', PStr ''gone'', PInt 3]) [''en''] True
       None None False None [] =
     (Inr ([(PStr ''vid1'', example_cues)], [PStr ''gone'', PInt 3]), trace_gone)
   \<and> fetched_ids trace_gone = [PStr ''vid1'', PStr ''gone'']
   \<and> attempts example_env [''en''] None None False None
        [PStr ''vid1'', PStr ''gone'', PInt 3] [] =
      [(PStr ''vid1'', Inr example_cues),
       (PStr ''gone'', Inl (CouldNotRetrieveTranscript ''gone'' ''VideoUnavailable'')),
       (PInt 3, Inl (AssertionError ''`video_id` must be a string''))]"
proof -
  have ids: "distinct [PStr ''vid1'', PStr ''gone'', PInt 3]" by simp
  have calls: "attempts example_env [''en''] None None False None
        [PStr ''vid1'', PStr ''gone'', PInt 3] [] =
      [(PStr ''vid1'', Inr example_cues),
       (PStr ''gone'', Inl (CouldNotRetrieveTranscript ''gone'' ''VideoUnavailable'')),
       (PInt 3, Inl (AssertionError ''`video_id` must be a string''))]"
    by (simp add: example_get_vid1 example_get_gone example_get_int)
  have fetched: "fetched_ids trace_gone = [PStr ''vid1'', PStr ''gone'']"
    by (simp add: trace_gone_def trace_vid1_def)
  have run: "get_transcripts example_env (PList [PStr ''vid1'', PStr ''gone'', PInt 3]) [''en'']
               True None None False None [] =
             (Inr ([(PStr ''vid1'', example_cues)], [PStr ''gone'', PInt 3]), trace_gone)"
    by (simp add: get_transcripts_def example_get_vid1 example_get_gone example_get_int)
  from get_transcripts_continue_partition
         [OF ids, of example_env "[''en'']" None None False None "[]"]
  have returns: "\<exists>data unret new.
          get_transcripts example_env (PList [PStr ''vid1'', PStr ''gone'', PInt 3]) [''en'']
            True None None False None [] = (Inr (data, unret), [] @ new)"
    by - (elim exE conjE, intro exI, assumption)
  from returns ids fetched run calls show ?thesis by simp
qed

section \<open>The assertions at the entry points\<close>

lemma get_transcript_error_origin:
  assumes "get_transcript e i l p k f v tr = (Inl x, t)"
  shows "x = AssertionError ''`video_id` must be a string'' \<or> length tr < length t"
proof (cases "isinstance_str i")
  case True
  then obtain s where "i = PStr s" by (cases i) auto
  with get_transcript_str_trace [of e s l p k f v tr] assms show ?thesis by auto
next
  case False
  with assms show ?thesis by (simp add: get_transcript_not_str)
qed

text \<open>
  An exception that leaves the loop is the assertion of \<open>get_transcript\<close> or comes
  after an operation on the outside world.
\<close>

lemma loop_error_origin:
  "get_transcripts_loop e l c p k f v ids data unret tr = (Inl x, t) \<Longrightarrow>
     x = AssertionError ''`video_id` must be a string'' \<or> length tr < length t"
proof (induction ids arbitrary: data unret tr)
  case Nil
  then show ?case by simp
next
  case (Cons i ids)
  obtain r tr1 where g: "get_transcript e i l p k f v tr = (r, tr1)"
    by (cases "get_transcript e i l p k f v tr")
  with get_transcript_trace [of e i l p k f v tr] have le: "length tr \<le> length tr1" by auto
  show ?case
  proof (cases r)
    case (Inl y)
    show ?thesis
    proof (cases c)
      case True
      with Cons.prems g Inl
      have "get_transcripts_loop e l c p k f v ids data (unret @ [i]) tr1 = (Inl x, t)" by simp
      from Cons.IH [OF this] le show ?thesis by auto
    next
      case False
      with Cons.prems g Inl have "x = y" "t = tr1" by simp_all
      with g Inl get_transcript_error_origin [of e i l p k f v tr y tr1] show ?thesis by simp
    qed
  next
    case (Inr cues)
    with Cons.prems g
    have "get_transcripts_loop e l c p k f v ids (AList.update i cues data) unret tr1 = (Inl x, t)"
      by simp
    from Cons.IH [OF this] le show ?thesis by auto
  qed
qed

text \<open>
  C10. \<open>get_transcript\<close> ends with its assertion failure, the outside world untouched,
  exactly when \<open>video_id\<close> is not a string; \<open>get_transcripts\<close> ends with its assertion
  failure, the outside world untouched, exactly when \<open>video_ids\<close> is not a list. So a
  value of the wrong type fails before any network operation, and with a string
  (a list) the assertion is never the way the call ends.
\<close>

theorem assertions_guard_entry_points:
  "((get_transcript e video_id languages proxies cookies pf verify tr =
       (Inl (AssertionError ''`video_id` must be a string''), tr)) = (\<not> isinstance_str video_id))
   \<and> ((get_transcripts e video_ids languages c proxies cookies pf verify tr =
       (Inl (AssertionError ''`video_ids` must be a list of strings''), tr)) =
      (\<not> isinstance_list video_ids))"
proof -
  have one: "(get_transcript e video_id languages proxies cookies pf verify tr =
       (Inl (AssertionError ''`video_id` must be a string''), tr)) = (\<not> isinstance_str video_id)"
  proof (cases "isinstance_str video_id")
    case True
    then obtain s where "video_id = PStr s" by (cases video_id) auto
    with get_transcript_str_trace [of e s languages proxies cookies pf verify tr] True
    show ?thesis by auto
  next
    case False
    then show ?thesis by (simp add: get_transcript_not_str)
  qed
  have two: "(get_transcripts e video_ids languages c proxies cookies pf verify tr =
       (Inl (AssertionError ''`video_ids` must be a list of strings''), tr)) =
      (\<not> isinstance_list video_ids)"
  proof (cases video_ids)
    case (PList ids)
    have "get_transcripts_loop e languages c proxies cookies pf verify ids [] [] tr \<noteq>
            (Inl (AssertionError ''`video_ids` must be a list of strings''), tr)"
    proof
      assume "get_transcripts_loop e languages c proxies cookies pf verify ids [] [] tr =
                (Inl (AssertionError ''`video_ids` must be a list of strings''), tr)"
      from loop_error_origin [OF this] show False by simp
    qed
    with PList show ?thesis by (simp add: get_transcripts_def)
  qed (simp_all add: get_transcripts_def)
  from one two show ?thesis by simp
qed

theorem assertions_guard_entry_points_witness:
  "\<not> isinstance_str (PInt 3)
   \<and> get_transcript example_env (PInt 3) [''en''] None None False None [] =
       (Inl (AssertionError ''`video_id` must be a string''), [])
   \<and> \<not> isinstance_list (PTuple [PStr ''vid1''])
   \<and> get_transcripts example_env (PTuple [PStr ''vid1'']) [''en''] True None None False None [] =
       (Inl (AssertionError ''`video_ids` must be a list of strings''), [])
   \<and> isinstance_str (PStr ''vid1'')
   \<and> get_transcript example_env (PStr ''vid1'') [''en''] None None False None [] =
       (Inr example_cues, trace_vid1)"
  using assertions_guard_entry_points
    [of example_env "PInt 3" "[''en'']" None None False None "[]" "PTuple [PStr ''vid1'']" True]
  by (simp add: example_get_vid1 get_transcripts_def)

end
